theory Spec2Isabelle
  imports Complex_Main "HOL-Library.Word"
begin

section \<open>The Muse client of \<open>src/muse.ts\<close>\<close>

text \<open>
  The class \<open>MuseClient\<close> is modelled as a record that every method takes and returns.
  Numbers of the source are JavaScript doubles. Event indices are integers (they start as
  \<open>getUint16\<close> values and only ever grow by \<open>0x10000\<close>), so they are modelled as
  \<open>int\<close>. Timestamps are a clock reading in whole milliseconds plus or minus multiples of
  \<open>READING_DELTA = 46.875\<close>, all of which doubles hold exactly at the magnitudes of a
  millisecond clock, so they are modelled as exact rationals.
\<close>

subsection \<open>Constants\<close>

definition MUSE_SERVICE :: nat where
  "MUSE_SERVICE = 0xfe8d"

definition CONTROL_CHARACTERISTIC :: string where
  "CONTROL_CHARACTERISTIC = ''273e0001-4c4d-454d-96be-f03bac821358''"

definition TELEMETRY_CHARACTERISTIC :: string where
  "TELEMETRY_CHARACTERISTIC = ''273e000b-4c4d-454d-96be-f03bac821358''"

definition GYROSCOPE_CHARACTERISTIC :: string where
  "GYROSCOPE_CHARACTERISTIC = ''273e0009-4c4d-454d-96be-f03bac821358''"

definition ACCELEROMETER_CHARACTERISTIC :: string where
  "ACCELEROMETER_CHARACTERISTIC = ''273e000a-4c4d-454d-96be-f03bac821358''"

definition EEG_CHARACTERISTICS :: "string list" where
  "EEG_CHARACTERISTICS =
    [''273e0003-4c4d-454d-96be-f03bac821358'',
     ''273e0004-4c4d-454d-96be-f03bac821358'',
     ''273e0005-4c4d-454d-96be-f03bac821358'',
     ''273e0006-4c4d-454d-96be-f03bac821358'',
     ''273e0007-4c4d-454d-96be-f03bac821358'']"

definition EEG_FREQUENCY :: rat where
  "EEG_FREQUENCY = 256"

definition SAMPLES_PER_READING :: rat where
  "SAMPLES_PER_READING = 12"

definition READING_DELTA :: rat where
  "READING_DELTA = 1000 * (1 / EEG_FREQUENCY) * SAMPLES_PER_READING"

subsection \<open>The client object and what the outside world sees of it\<close>

text \<open>
  A GATT server handle, as far as the client reads it: the name of its device
  (\<open>gatt.device.name\<close>, which may be missing).
\<close>

record gatt_server =
  device_name :: "string option"

text \<open>
  Every value a rejected promise or a \<open>throw\<close> can carry: a failure reported by the
  transport, or the \<open>TypeError\<close> of calling a method on an unset field.
\<close>

datatype error = TransportFailure string | TypeError

text \<open>
  What goes over the control characteristic: a write is issued when \<open>writeValue\<close> is
  called, and completes or is rejected when its promise settles.
\<close>

datatype wire_event =
  WriteIssued "8 word list" | WriteCompleted "8 word list" | WriteRejected "8 word list"

text \<open>
  The fields of \<open>MuseClient\<close>, under their names. An observable field holds the
  characteristic(s) it was built from, or \<open>None\<close> while unassigned. Four more fields record
  what the class does to its collaborators: \<open>emitted\<close> is every value passed to
  \<open>connectionStatus.next\<close>, in order (\<open>connectionStatus\<close> itself is the current value of
  the \<open>BehaviorSubject\<close>); \<open>disconnectListeners\<close> counts the pending one-shot
  \<open>gattserverdisconnected\<close> subscriptions; \<open>gattDisconnects\<close> counts the calls of
  \<open>gatt.disconnect()\<close>; \<open>wire\<close> is the log of writes to the control characteristic.
\<close>

record MuseClient =
  gatt :: "gatt_server option"
  controlChar :: "string option"
  eegCharacteristics :: "string list"
  enableAux :: bool
  deviceName :: "string option"
  connectionStatus :: bool
  rawControlData :: "string option"
  controlResponses :: "string option"
  telemetryData :: "string option"
  gyroscopeData :: "string option"
  accelerometerData :: "string option"
  eegReadings :: "string list option"
  lastIndex :: "int option"
  lastTimestamp :: "rat option"
  emitted :: "bool list"
  disconnectListeners :: nat
  gattDisconnects :: nat
  wire :: "wire_event list"

text \<open>The object right after construction (the field initialisers of the class).\<close>

definition new_client :: MuseClient where
  "new_client =
    \<lparr> gatt = None, controlChar = None, eegCharacteristics = [], enableAux = False,
      deviceName = Some [], connectionStatus = False,
      rawControlData = None, controlResponses = None, telemetryData = None,
      gyroscopeData = None, accelerometerData = None, eegReadings = None,
      lastIndex = None, lastTimestamp = None,
      emitted = [], disconnectListeners = 0, gattDisconnects = 0, wire = [] \<rparr>"

subsection \<open>\<open>getTimestamp\<close>\<close>

text \<open>
  The loop \<open>while ((this.lastIndex - eventIndex) > 0x1000) eventIndex += 0x10000\<close>, first
  as the loop it is, where not returning is the value \<open>None\<close>, then as a total function.
\<close>

partial_function (option) wrap_loop :: "int \<Rightarrow> int \<Rightarrow> int option" where
  "wrap_loop li eventIndex =
    (if li - eventIndex > 0x1000 then wrap_loop li (eventIndex + 0x10000)
     else Some eventIndex)"

function handle_wrap_around :: "int \<Rightarrow> int \<Rightarrow> int" where
  "handle_wrap_around li eventIndex =
    (if li - eventIndex > 0x1000 then handle_wrap_around li (eventIndex + 0x10000)
     else eventIndex)"
  by pat_completeness auto
termination
  by (relation "measure (\<lambda>(li, eventIndex). nat (li - eventIndex))") auto

declare handle_wrap_around.simps [simp del]

text \<open>
  \<open>getTimestamp(eventIndex)\<close>. The clock reading \<open>new Date().getTime()\<close> is the
  argument \<open>now\<close>, a whole number of milliseconds; the source reads it only when it seeds.
  The result is the returned timestamp and the client after the call. After the first
  statement both fields are set, so the last case below is never taken.
\<close>

definition getTimestamp :: "int \<Rightarrow> int \<Rightarrow> MuseClient \<Rightarrow> rat \<times> MuseClient" where
  "getTimestamp now eventIndex c =
    (let c1 = (if lastIndex c = None \<or> lastTimestamp c = None
               then c\<lparr>lastIndex := Some eventIndex,
                      lastTimestamp := Some (of_int now - READING_DELTA)\<rparr>
               else c)
     in case (lastIndex c1, lastTimestamp c1) of
          (Some li, Some lt) \<Rightarrow>
            (let e = handle_wrap_around li eventIndex
             in if e = li then (lt, c1)
                else if e > li then
                  (let lt' = lt + READING_DELTA * of_int (e - li)
                   in (lt', c1\<lparr>lastTimestamp := Some lt', lastIndex := Some e\<rparr>))
                else (lt - READING_DELTA * of_int (li - e), c1))
        | _ \<Rightarrow> (of_int now - READING_DELTA, c1))"

subsection \<open>The electrode streams\<close>

text \<open>
  One notification of an electrode characteristic, as the callback in \<open>connect\<close> reads it:
  \<open>ev_electrode\<close> is the \<open>channelIndex\<close> its closure captured, \<open>ev_index\<close> is
  \<open>data.getUint16(0)\<close>, \<open>ev_payload\<close> is the rest of the buffer, and \<open>ev_now\<close> is what the
  clock shows when the callback runs.
\<close>

record eeg_notification =
  ev_electrode :: nat
  ev_index :: "16 word"
  ev_payload :: "8 word list"
  ev_now :: int

record 's EEGReading =
  index :: int
  electrode :: nat
  timestamp :: rat
  samples :: 's

text \<open>
  The callback \<open>data => { ... }\<close> mapped over each electrode's notifications. The decoder
  \<open>decodeEEGSamples\<close> lives in another file and is a parameter here.
\<close>

definition eeg_reading ::
  "(8 word list \<Rightarrow> 's) \<Rightarrow> eeg_notification \<Rightarrow> MuseClient \<Rightarrow> 's EEGReading \<times> MuseClient" where
  "eeg_reading decodeEEGSamples ev c =
    (let eventIndex = uint (ev_index ev);
         (ts, c') = getTimestamp (ev_now ev) eventIndex c
     in (\<lparr> index = eventIndex, electrode = ev_electrode ev, timestamp = ts,
            samples = decodeEEGSamples (ev_payload ev) \<rparr>, c'))"

text \<open>
  \<open>Observable.merge(...eegObservables)\<close> with one subscriber: the notifications of all
  electrodes, in the order they arrive, each mapped once by the callback above.
\<close>

fun eeg_merge ::
  "(8 word list \<Rightarrow> 's) \<Rightarrow> MuseClient \<Rightarrow> eeg_notification list \<Rightarrow> 's EEGReading list \<times> MuseClient" where
  "eeg_merge dec c [] = ([], c)"
| "eeg_merge dec c (ev # evs) =
    (let (r, c1) = eeg_reading dec ev c;
         (rs, c2) = eeg_merge dec c1 evs
     in (r # rs, c2))"

subsection \<open>The transport and the session operations\<close>

text \<open>
  The asynchronous requests the client awaits. The environment says how each one settles:
  \<open>None\<close> when its promise resolves, \<open>Some err\<close> when it rejects with \<open>err\<close>. It also
  gives the server that \<open>requestDevice\<close> and \<open>device.gatt.connect()\<close> resolve with, and the
  encoder \<open>encodeCommand\<close> of another file.
\<close>

datatype request =
    RequestDevice nat
  | GattConnect
  | GetPrimaryService nat
  | GetCharacteristic string
  | ObservableCharacteristic string
  | WriteValue "8 word list"

record env =
  outcome :: "request \<Rightarrow> error option"
  chosen_device :: gatt_server
  encodeCommand :: "string \<Rightarrow> 8 word list"

type_synonym 'a async = "(error + 'a) \<times> MuseClient"

text \<open>\<open>await\<close> of a request, followed by the rest of the function body.\<close>

definition await :: "env \<Rightarrow> request \<Rightarrow> (MuseClient \<Rightarrow> 'a async) \<Rightarrow> MuseClient \<Rightarrow> 'a async" where
  "await e r rest c = (case outcome e r of Some err \<Rightarrow> (Inl err, c) | None \<Rightarrow> rest c)"

text \<open>\<open>await\<close> of an asynchronous method of the client, followed by the rest.\<close>

definition and_then :: "unit async \<Rightarrow> (MuseClient \<Rightarrow> 'a async) \<Rightarrow> 'a async" where
  "and_then r rest = (case r of (Inl err, c) \<Rightarrow> (Inl err, c) | (Inr _, c) \<Rightarrow> rest c)"

text \<open>\<open>this.connectionStatus.next(v)\<close>.\<close>

definition connectionStatus_next :: "bool \<Rightarrow> MuseClient \<Rightarrow> MuseClient" where
  "connectionStatus_next v c = c\<lparr>connectionStatus := v, emitted := emitted c @ [v]\<rparr>"

text \<open>
  The subscriber of \<open>gattserverdisconnected\<close> registered by \<open>connect\<close>, and the event itself:
  every pending subscription runs once and is gone (\<open>.first()\<close>).
\<close>

definition on_gattserverdisconnected :: "MuseClient \<Rightarrow> MuseClient" where
  "on_gattserverdisconnected c = connectionStatus_next False (c\<lparr>gatt := None\<rparr>)"

definition gattserverdisconnected :: "MuseClient \<Rightarrow> MuseClient" where
  "gattserverdisconnected c =
    ((on_gattserverdisconnected ^^ disconnectListeners c) c)\<lparr>disconnectListeners := 0\<rparr>"

text \<open>The loop over \<open>channelIndex\<close> in \<open>connect\<close>; \<open>obs\<close> is \<open>eegObservables\<close>.\<close>

fun connect_eeg :: "env \<Rightarrow> nat list \<Rightarrow> string list \<Rightarrow> MuseClient \<Rightarrow> (string list) async" where
  "connect_eeg e [] obs c = (Inr obs, c)"
| "connect_eeg e (channelIndex # later) obs c =
    (let characteristicId = EEG_CHARACTERISTICS ! channelIndex in
     await e (GetCharacteristic characteristicId) (\<lambda>c.
     await e (ObservableCharacteristic characteristicId) (\<lambda>c.
     connect_eeg e later (obs @ [characteristicId])
       (c\<lparr>eegCharacteristics := eegCharacteristics c @ [characteristicId]\<rparr>)) c) c)"

text \<open>
  \<open>connect(gatt?)\<close>. \<open>gatt.device.name || null\<close> turns a missing or empty name into
  \<open>null\<close>.
\<close>

definition connect :: "env \<Rightarrow> gatt_server option \<Rightarrow> MuseClient \<Rightarrow> unit async" where
  "connect e g c0 =
    (let bindings = (\<lambda>server c.
      let c = c\<lparr>gatt := Some server\<rparr>;
          c = c\<lparr>deviceName :=
                (case device_name server of
                   None \<Rightarrow> None
                 | Some n \<Rightarrow> if n = [] then None else Some n)\<rparr>
      in
      await e (GetPrimaryService MUSE_SERVICE) (\<lambda>c.
      let c = c\<lparr>disconnectListeners := Suc (disconnectListeners c)\<rparr> in
      await e (GetCharacteristic CONTROL_CHARACTERISTIC) (\<lambda>c.
      let c = c\<lparr>controlChar := Some CONTROL_CHARACTERISTIC\<rparr> in
      await e (ObservableCharacteristic CONTROL_CHARACTERISTIC) (\<lambda>c.
      let c = c\<lparr>rawControlData := Some CONTROL_CHARACTERISTIC\<rparr>;
          c = c\<lparr>controlResponses := rawControlData c\<rparr>
      in
      await e (GetCharacteristic TELEMETRY_CHARACTERISTIC) (\<lambda>c.
      await e (ObservableCharacteristic TELEMETRY_CHARACTERISTIC) (\<lambda>c.
      let c = c\<lparr>telemetryData := Some TELEMETRY_CHARACTERISTIC\<rparr> in
      await e (GetCharacteristic GYROSCOPE_CHARACTERISTIC) (\<lambda>c.
      await e (ObservableCharacteristic GYROSCOPE_CHARACTERISTIC) (\<lambda>c.
      let c = c\<lparr>gyroscopeData := Some GYROSCOPE_CHARACTERISTIC\<rparr> in
      await e (GetCharacteristic ACCELEROMETER_CHARACTERISTIC) (\<lambda>c.
      await e (ObservableCharacteristic ACCELEROMETER_CHARACTERISTIC) (\<lambda>c.
      let c = c\<lparr>accelerometerData := Some ACCELEROMETER_CHARACTERISTIC\<rparr>;
          c = c\<lparr>eegCharacteristics := []\<rparr>;
          channelCount = (if enableAux c then length EEG_CHARACTERISTICS else 4)
      in
      case connect_eeg e [0..<channelCount] [] c of
        (Inl err, c) \<Rightarrow> (Inl err, c)
      | (Inr eegObservables, c) \<Rightarrow>
          (Inr (), connectionStatus_next True (c\<lparr>eegReadings := Some eegObservables\<rparr>))
      ) c) c) c) c) c) c) c) c) c)
     in case g of
          Some server \<Rightarrow> bindings server c0
        | None \<Rightarrow>
            await e (RequestDevice MUSE_SERVICE) (\<lambda>c.
            await e GattConnect (\<lambda>c.
            bindings (chosen_device e) c) c) c0)"

text \<open>
  \<open>this.controlChar.writeValue(bytes)\<close>, awaited. Before \<open>connect\<close> has bound the control
  characteristic the field is unset and the call throws.
\<close>

definition controlChar_writeValue :: "env \<Rightarrow> 8 word list \<Rightarrow> MuseClient \<Rightarrow> unit async" where
  "controlChar_writeValue e bytes c =
    (case controlChar c of
       None \<Rightarrow> (Inl TypeError, c)
     | Some _ \<Rightarrow>
         (let c = c\<lparr>wire := wire c @ [WriteIssued bytes]\<rparr>
          in case outcome e (WriteValue bytes) of
               Some err \<Rightarrow> (Inl err, c\<lparr>wire := wire c @ [WriteRejected bytes]\<rparr>)
             | None \<Rightarrow> (Inr (), c\<lparr>wire := wire c @ [WriteCompleted bytes]\<rparr>)))"

definition sendCommand :: "env \<Rightarrow> string \<Rightarrow> MuseClient \<Rightarrow> unit async" where
  "sendCommand e cmd c = controlChar_writeValue e (encodeCommand e cmd) c"

definition pause :: "env \<Rightarrow> MuseClient \<Rightarrow> unit async" where
  "pause e c = sendCommand e ''h'' c"

definition resume :: "env \<Rightarrow> MuseClient \<Rightarrow> unit async" where
  "resume e c = sendCommand e ''d'' c"

definition start :: "env \<Rightarrow> MuseClient \<Rightarrow> unit async" where
  "start e c =
    and_then (pause e c) (\<lambda>c.
    and_then (controlChar_writeValue e (encodeCommand e ''p20'') c) (\<lambda>c.
    and_then (controlChar_writeValue e (encodeCommand e ''s'') c) (\<lambda>c.
    resume e c)))"

text \<open>
  \<open>disconnect()\<close>. The call \<open>this.gatt.disconnect()\<close> is counted; whether and when the
  transport answers it with a \<open>gattserverdisconnected\<close> event is the transport's business
  and a separate step. (A transport that dispatches the event inside the call reaches the
  same client as one that dispatches it right after \<open>disconnect()\<close> returns: the
  subscriber and the rest of \<open>disconnect\<close> write different fields and both emit \<open>false\<close>.)
\<close>

definition disconnect :: "MuseClient \<Rightarrow> MuseClient" where
  "disconnect c =
    (if gatt c \<noteq> None then
       (let c = c\<lparr>lastIndex := None\<rparr>;
            c = c\<lparr>lastTimestamp := None\<rparr>;
            c = c\<lparr>gattDisconnects := Suc (gattDisconnects c)\<rparr>
        in connectionStatus_next False c)
     else c)"

subsection \<open>Runs and reference points used in the statements\<close>

text \<open>Successive calls of \<open>getTimestamp\<close>, each given as the clock reading and the index: the
  timestamp every call returns and the client it leaves.\<close>

fun getTimestamp_calls :: "MuseClient \<Rightarrow> (int \<times> int) list \<Rightarrow> (rat \<times> MuseClient) list" where
  "getTimestamp_calls c [] = []"
| "getTimestamp_calls c ((now, eventIndex) # calls) =
    (let (ts, c') = getTimestamp now eventIndex c
     in (ts, c') # getTimestamp_calls c' calls)"

text \<open>
  The requests \<open>connect\<close> awaits, in program order, and the error of the first one that the
  environment rejects.
\<close>

fun first_failure :: "env \<Rightarrow> request list \<Rightarrow> error option" where
  "first_failure e [] = None"
| "first_failure e (r # rs) =
    (case outcome e r of Some err \<Rightarrow> Some err | None \<Rightarrow> first_failure e rs)"

definition eeg_requests :: "nat list \<Rightarrow> request list" where
  "eeg_requests channels =
    concat (map (\<lambda>channelIndex.
      [GetCharacteristic (EEG_CHARACTERISTICS ! channelIndex),
       ObservableCharacteristic (EEG_CHARACTERISTICS ! channelIndex)]) channels)"

definition connect_requests :: "gatt_server option \<Rightarrow> bool \<Rightarrow> request list" where
  "connect_requests g aux =
    (case g of Some _ \<Rightarrow> [] | None \<Rightarrow> [RequestDevice MUSE_SERVICE, GattConnect]) @
    [GetPrimaryService MUSE_SERVICE,
     GetCharacteristic CONTROL_CHARACTERISTIC, ObservableCharacteristic CONTROL_CHARACTERISTIC,
     GetCharacteristic TELEMETRY_CHARACTERISTIC, ObservableCharacteristic TELEMETRY_CHARACTERISTIC,
     GetCharacteristic GYROSCOPE_CHARACTERISTIC, ObservableCharacteristic GYROSCOPE_CHARACTERISTIC,
     GetCharacteristic ACCELEROMETER_CHARACTERISTIC,
     ObservableCharacteristic ACCELEROMETER_CHARACTERISTIC] @
    eeg_requests [0..<(if aux then length EEG_CHARACTERISTICS else 4)]"

text \<open>
  The writes of a list of commands awaited one after the other: each is issued, then
  settles, and a rejected one is the last.
\<close>

fun write_trace :: "env \<Rightarrow> 8 word list list \<Rightarrow> wire_event list" where
  "write_trace e [] = []"
| "write_trace e (bytes # later) =
    WriteIssued bytes #
    (case outcome e (WriteValue bytes) of
       None \<Rightarrow> WriteCompleted bytes # write_trace e later
     | Some err \<Rightarrow> [WriteRejected bytes])"

text \<open>
  A transport on which every request resolves, a server, the client that \<open>connect\<close> yields
  from a new one on them, and a notification with an empty payload.
\<close>

definition example_env :: env where
  "example_env =
    \<lparr> outcome = (\<lambda>r. None),
      chosen_device = \<lparr> device_name = Some ''Muse-1234'' \<rparr>,
      encodeCommand = (\<lambda>cmd. map (\<lambda>ch. of_nat (of_char ch)) cmd) \<rparr>"

definition example_server :: gatt_server where
  "example_server = \<lparr> device_name = Some ''Muse-1234'' \<rparr>"

definition connected_client :: MuseClient where
  "connected_client = snd (connect example_env (Some example_server) new_client)"

definition eeg_event :: "nat \<Rightarrow> 16 word \<Rightarrow> int \<Rightarrow> eeg_notification" where
  "eeg_event a i now = \<lparr> ev_electrode = a, ev_index = i, ev_payload = [], ev_now = now \<rparr>"

text \<open>The readings of electrode \<open>a\<close> in the merged stream.\<close>

definition channel_readings ::
  "(8 word list \<Rightarrow> 's) \<Rightarrow> nat \<Rightarrow> MuseClient \<Rightarrow> eeg_notification list \<Rightarrow> 's EEGReading list" where
  "channel_readings dec a c evs = filter (\<lambda>r. electrode r = a) (fst (eeg_merge dec c evs))"

text \<open>
  In a run of notifications from client \<open>c\<close>, no notification of electrode \<open>a\<close> has its
  index unwrapped: when it arrives, the stored \<open>lastIndex\<close> (whichever electrode set it) is
  at most \<open>0x1000\<close> above its index.
\<close>

fun no_unwrap_on :: "nat \<Rightarrow> MuseClient \<Rightarrow> eeg_notification list \<Rightarrow> bool" where
  "no_unwrap_on a c [] = True"
| "no_unwrap_on a c (ev # evs) =
    ((if ev_electrode ev = a
      then (case (lastIndex c, lastTimestamp c) of
              (Some li, Some lt) \<Rightarrow> li - uint (ev_index ev) \<le> 0x1000
            | _ \<Rightarrow> True)
      else True)
     \<and> no_unwrap_on a (snd (getTimestamp (ev_now ev) (uint (ev_index ev)) c)) evs)"

text \<open>
  What the notifications of the other electrodes do to the stored index, as far as electrode
  \<open>a\<close> can tell. \<open>li\<close> is the stored \<open>lastIndex\<close> in the run of all notifications,
  \<open>la\<close> the one in the run of electrode \<open>a\<close>'s notifications alone (\<open>None\<close> while that
  run has not seeded). The condition: whenever a notification of \<open>a\<close> arrives, \<open>li\<close> is at
  most \<open>0x1000\<close> above the index that notification unwraps to in the run of \<open>a\<close> alone.
\<close>

fun others_within_window :: "nat \<Rightarrow> int \<Rightarrow> int option \<Rightarrow> eeg_notification list \<Rightarrow> bool" where
  "others_within_window a li la [] = True"
| "others_within_window a li la (ev # evs) =
    (let e = uint (ev_index ev);
         li' = max li (handle_wrap_around li e)
     in if ev_electrode ev = a then
          (case la of
             None \<Rightarrow> li - e \<le> 0x1000 \<and> others_within_window a li' (Some e) evs
           | Some l \<Rightarrow>
               li - handle_wrap_around l e \<le> 0x1000
               \<and> others_within_window a li' (Some (max l (handle_wrap_around l e))) evs)
        else others_within_window a li' la evs)"

text \<open>
  The constant \<open>lastTimestamp - READING_DELTA * lastIndex\<close> that a seeding notification
  sets.
\<close>

definition seed_offset :: "eeg_notification \<Rightarrow> rat" where
  "seed_offset ev = of_int (ev_now ev) - READING_DELTA - READING_DELTA * of_int (uint (ev_index ev))"

text \<open>
  The proviso under which electrode \<open>a\<close> cannot tell the other electrodes are there. If the
  client is seeded, the window condition above. If it is not, the first notification seeds:
  it is one of \<open>a\<close>, or it sets the same constant as the first notification of \<open>a\<close>
  would; then the window condition on what follows.
\<close>

definition channel_undisturbed :: "nat \<Rightarrow> MuseClient \<Rightarrow> eeg_notification list \<Rightarrow> bool" where
  "channel_undisturbed a c evs =
    (case (lastIndex c, lastTimestamp c) of
       (Some li, Some lt) \<Rightarrow> others_within_window a li (Some li) evs
     | _ \<Rightarrow>
        (case evs of
           [] \<Rightarrow> True
         | ev0 # later \<Rightarrow>
             if ev_electrode ev0 = a
             then others_within_window a (uint (ev_index ev0)) (Some (uint (ev_index ev0))) later
             else (case find (\<lambda>ev. ev_electrode ev = a) later of
                     None \<Rightarrow> True
                   | Some ev1 \<Rightarrow> seed_offset ev0 = seed_offset ev1)
                  \<and> others_within_window a (uint (ev_index ev0)) None later))"

text \<open>
  The connected client after one reading (electrode 0, index 100, clock 1000) and a
  \<open>gattserverdisconnected\<close> event of the transport.
\<close>

definition dropped_client :: MuseClient where
  "dropped_client =
    gattserverdisconnected (snd (eeg_reading id (eeg_event 0 100 1000) connected_client))"

section \<open>Properties of the timestamp reconstruction\<close>

lemmas handle_wrap_around_unfold = handle_wrap_around.simps

lemma READING_DELTA_value: "READING_DELTA = 375 / 8"
  by (simp add: READING_DELTA_def EEG_FREQUENCY_def SAMPLES_PER_READING_def)

lemma READING_DELTA_pos: "0 < READING_DELTA"
  by (simp add: READING_DELTA_value)

lemma handle_wrap_around_id: "li - e \<le> 0x1000 \<Longrightarrow> handle_wrap_around li e = e"
  by (subst handle_wrap_around_unfold) simp

lemma handle_wrap_around_step:
  "li - e > 0x1000 \<Longrightarrow> handle_wrap_around li e = handle_wrap_around li (e + 0x10000)"
  by (subst handle_wrap_around_unfold) simp

lemma handle_wrap_around_window: "li - handle_wrap_around li e \<le> 0x1000"
proof (induction li e rule: handle_wrap_around.induct)
  case (1 li e)
  show ?case
  proof (cases "li - e > 0x1000")
    case True
    with "1" show ?thesis by (simp add: handle_wrap_around_step)
  next
    case False
    then show ?thesis by (simp add: handle_wrap_around_id)
  qed
qed

lemma handle_wrap_around_ge: "e \<le> handle_wrap_around li e"
proof (induction li e rule: handle_wrap_around.induct)
  case (1 li e)
  show ?case
  proof (cases "li - e > 0x1000")
    case True
    with "1" show ?thesis by (simp add: handle_wrap_around_step)
  next
    case False
    then show ?thesis by (simp add: handle_wrap_around_id)
  qed
qed

lemma handle_wrap_around_count:
  "handle_wrap_around li e = e + 0x10000 * max 0 ((li - e - 0x1001) div 0x10000 + 1)"
proof (induction li e rule: handle_wrap_around.induct)
  case (1 li e)
  show ?case
  proof (cases "li - e > 0x1000")
    case True
    have "(li - (e + 0x10000) - 0x1001) div 0x10000 + 1 = (li - e - 0x1001) div 0x10000"
      by simp
    moreover have "0 \<le> (li - e - 0x1001) div 0x10000"
      using True by simp
    ultimately show ?thesis
      using True "1" by (simp add: handle_wrap_around_step max_def)
  next
    case False
    then have "(li - e - 0x1001) div 0x10000 + 1 \<le> 0"
      by simp
    with False show ?thesis by (simp add: handle_wrap_around_id max_def)
  qed
qed

lemma wrap_loop_returns: "wrap_loop li e = Some (handle_wrap_around li e)"
proof (induction li e rule: handle_wrap_around.induct)
  case (1 li e)
  show ?case
  proof (cases "li - e > 0x1000")
    case True
    with "1" show ?thesis
      by (subst wrap_loop.simps) (simp add: handle_wrap_around_step)
  next
    case False
    then show ?thesis
      by (subst wrap_loop.simps) (simp add: handle_wrap_around_id)
  qed
qed

lemma getTimestamp_seeded:
  assumes "lastIndex c = Some li" "lastTimestamp c = Some lt"
  shows "getTimestamp now e c =
    (lt + READING_DELTA * of_int (handle_wrap_around li e - li),
     if handle_wrap_around li e > li
     then c\<lparr>lastTimestamp := Some (lt + READING_DELTA * of_int (handle_wrap_around li e - li)),
            lastIndex := Some (handle_wrap_around li e)\<rparr>
     else c)"
  using assms by (simp add: getTimestamp_def Let_def algebra_simps)

lemma getTimestamp_unseeded:
  assumes "lastIndex c = None \<or> lastTimestamp c = None"
  shows "getTimestamp now e c =
    (of_int now - READING_DELTA,
     c\<lparr>lastIndex := Some e, lastTimestamp := Some (of_int now - READING_DELTA)\<rparr>)"
  using assms by (auto simp add: getTimestamp_def Let_def handle_wrap_around_id)

text \<open>
  The two sequencing fields are set together and cleared together: \<open>getTimestamp\<close> leaves
  both set, \<open>disconnect\<close> clears both or neither.
\<close>

lemma getTimestamp_sets_both:
  "lastIndex (snd (getTimestamp now e c)) \<noteq> None
   \<and> lastTimestamp (snd (getTimestamp now e c)) \<noteq> None"
  by (cases "lastIndex c"; cases "lastTimestamp c")
     (simp_all add: getTimestamp_unseeded getTimestamp_seeded)

lemma disconnect_fields_together:
  "(lastIndex c = None) = (lastTimestamp c = None) \<Longrightarrow>
   (lastIndex (disconnect c) = None) = (lastTimestamp (disconnect c) = None)"
  by (simp add: disconnect_def Let_def connectionStatus_next_def)


lemma handle_wrap_around_FFF0: "handle_wrap_around 0xFFF0 0x0005 = 0x10005"
  by (simp add: handle_wrap_around_step handle_wrap_around_id)

text \<open>
  C5. With \<open>lastIndex = 0xFFF0\<close> stored, the index \<open>0x0005\<close> is taken as a wrap of the
  counter: the loop adds \<open>0x10000\<close> once, the unwrapped index is 21 groups ahead of the
  stored one, the returned timestamp is the stored one plus \<open>21 * READING_DELTA\<close>, and
  the stored index and timestamp move forward to the unwrapped index and that timestamp.
\<close>

theorem wraparound_FFF0_to_0005:
  "handle_wrap_around 0xFFF0 0x0005 = 0x0005 + 0x10000
   \<and> (0x0005 + 0x10000) - 0xFFF0 = (0x15 :: int)
   \<and> getTimestamp now 0x0005 (c\<lparr>lastIndex := Some 0xFFF0, lastTimestamp := Some lt\<rparr>) =
       (lt + 21 * READING_DELTA,
        c\<lparr>lastIndex := Some 0x10005, lastTimestamp := Some (lt + 21 * READING_DELTA)\<rparr>)"
  by (simp add: getTimestamp_seeded handle_wrap_around_FFF0)

text \<open>
  C7. When the unwrapped index is strictly below the stored \<open>lastIndex\<close> (it is then
  within \<open>0x1000\<close> of it, since the loop has stopped), \<open>getTimestamp\<close> returns
  \<open>lastTimestamp - READING_DELTA * (lastIndex - index)\<close>, which is strictly less than
  \<open>lastTimestamp\<close>, and leaves the client, so \<open>lastIndex\<close> and \<open>lastTimestamp\<close>,
  as it was.
\<close>

theorem late_index_keeps_state:
  assumes "lastIndex c = Some li" and "lastTimestamp c = Some lt"
    and "handle_wrap_around li eventIndex < li"
  shows "getTimestamp now eventIndex c =
           (lt - READING_DELTA * of_int (li - handle_wrap_around li eventIndex), c)
         \<and> lt - READING_DELTA * of_int (li - handle_wrap_around li eventIndex) < lt
         \<and> li - handle_wrap_around li eventIndex \<le> 0x1000"
proof -
  let ?e = "handle_wrap_around li eventIndex"
  have "getTimestamp now eventIndex c = (lt - READING_DELTA * of_int (li - ?e), c)"
    using assms by (simp add: getTimestamp_seeded algebra_simps)
  moreover have "0 < READING_DELTA * of_int (li - ?e)"
    using assms(3) READING_DELTA_pos by simp
  ultimately show ?thesis
    using handle_wrap_around_window [of li eventIndex] by simp
qed

theorem late_index_keeps_state_witness:
  "getTimestamp 0 98 (new_client\<lparr>lastIndex := Some 100, lastTimestamp := Some 5000\<rparr>) =
     (5000 - READING_DELTA * 2, new_client\<lparr>lastIndex := Some 100, lastTimestamp := Some 5000\<rparr>)
   \<and> 5000 - READING_DELTA * 2 < (5000 :: rat)"
  using late_index_keeps_state [of "new_client\<lparr>lastIndex := Some 100, lastTimestamp := Some 5000\<rparr>"
      100 5000 98 0]
  by (simp add: handle_wrap_around_id)

text \<open>
  C10. The unwrap loop returns for every stored index and every incoming index: run as
  the loop it is, it yields a value, reached by adding \<open>0x10000\<close> a finite number of
  times (the number is given), at which \<open>lastIndex - eventIndex\<close> is at most \<open>0x1000\<close>.
  So \<open>getTimestamp\<close>, which has no other loop, is a total function of the client, the
  clock and the index.
\<close>

theorem wrap_loop_terminates:
  "wrap_loop li eventIndex = Some (handle_wrap_around li eventIndex)
   \<and> li - handle_wrap_around li eventIndex \<le> 0x1000
   \<and> handle_wrap_around li eventIndex =
       eventIndex + 0x10000 * max 0 ((li - eventIndex - 0x1001) div 0x10000 + 1)"
  using wrap_loop_returns [of li eventIndex] handle_wrap_around_window [of li eventIndex]
    handle_wrap_around_count [of li eventIndex]
  by simp

lemma length_getTimestamp_calls [simp]: "length (getTimestamp_calls c calls) = length calls"
  by (induction calls arbitrary: c) (auto split: prod.splits)

lemma getTimestamp_clock_step:
  assumes "lastIndex c = Some li" "lastTimestamp c = Some lt"
  shows "\<exists>li' lt'. lastIndex (snd (getTimestamp now e c)) = Some li'
           \<and> lastTimestamp (snd (getTimestamp now e c)) = Some lt' \<and> lt \<le> lt'"
proof (cases "handle_wrap_around li e > li")
  case True
  then have "0 \<le> READING_DELTA * of_int (handle_wrap_around li e - li)"
    using READING_DELTA_pos by simp
  with True assms show ?thesis by (simp add: getTimestamp_seeded)
next
  case False
  with assms show ?thesis by (simp add: getTimestamp_seeded)
qed

lemma calls_clock_sorted:
  assumes "lastIndex c = Some li" "lastTimestamp c = Some lt"
  shows "\<exists>clocks. map (lastTimestamp \<circ> snd) (getTimestamp_calls c calls) = map Some clocks
           \<and> sorted (lt # clocks)"
  using assms
proof (induction calls arbitrary: c li lt)
  case Nil
  then show ?case by simp
next
  case (Cons call calls)
  obtain now i where call: "call = (now, i)" by (cases call)
  obtain ts c' where step: "getTimestamp now i c = (ts, c')" by (cases "getTimestamp now i c")
  obtain li' lt' where s': "lastIndex c' = Some li'" "lastTimestamp c' = Some lt'" "lt \<le> lt'"
    using getTimestamp_clock_step [OF Cons.prems, of now i] by (auto simp: step)
  obtain clocks where clocks:
    "map (lastTimestamp \<circ> snd) (getTimestamp_calls c' calls) = map Some clocks"
    "sorted (lt' # clocks)"
    using Cons.IH [OF s'(1,2)] by blast
  have "map (lastTimestamp \<circ> snd) (getTimestamp_calls c (call # calls)) = map Some (lt' # clocks)"
    by (simp add: call step s'(2) clocks(1))
  moreover have "sorted (lt # lt' # clocks)"
    using clocks(2) s'(3) by auto
  ultimately show ?case by blast
qed

text \<open>
  C8. From a client whose two sequencing fields are set together (as every operation leaves
  them), whatever indices and clock readings the calls present, every call leaves a stored
  \<open>lastTimestamp\<close>, and the stored values, starting with the one before the first call if
  there is one, never decrease from one call to the next.
\<close>

theorem stored_timestamp_never_decreases:
  assumes "lastIndex c = None \<longrightarrow> lastTimestamp c = None"
  shows "\<exists>clocks. map (lastTimestamp \<circ> snd) (getTimestamp_calls c calls) = map Some clocks
           \<and> sorted (case lastTimestamp c of None \<Rightarrow> clocks | Some lt \<Rightarrow> lt # clocks)"
proof (cases "lastTimestamp c")
  case (Some lt)
  with assms obtain li where "lastIndex c = Some li" by auto
  from calls_clock_sorted [OF this Some, of calls] Some show ?thesis by simp
next
  case None
  show ?thesis
  proof (cases calls)
    case Nil
    with None show ?thesis by simp
  next
    case (Cons call rest)
    obtain now i where call: "call = (now, i)" by (cases call)
    let ?lt = "of_int now - READING_DELTA"
    let ?c' = "c\<lparr>lastIndex := Some i, lastTimestamp := Some ?lt\<rparr>"
    have step: "getTimestamp now i c = (?lt, ?c')"
      using None by (intro getTimestamp_unseeded) simp
    obtain clocks where clocks:
      "map (lastTimestamp \<circ> snd) (getTimestamp_calls ?c' rest) = map Some clocks"
      "sorted (?lt # clocks)"
      using calls_clock_sorted [of ?c' i ?lt rest] by auto
    have "map (lastTimestamp \<circ> snd) (getTimestamp_calls c calls) = map Some (?lt # clocks)"
      by (simp add: Cons call step clocks(1))
    with clocks(2) None show ?thesis by (metis option.simps(4))
  qed
qed

theorem stored_timestamp_never_decreases_witness:
  "\<exists>clocks. map (lastTimestamp \<circ> snd)
       (getTimestamp_calls new_client [(1000, 10), (1040, 9), (1100, 12)]) = map Some clocks
     \<and> sorted clocks"
  using stored_timestamp_never_decreases
    [of new_client "[(1000, 10), (1040, 9), (1100, 12)]"]
  by (simp add: new_client_def)

section \<open>Properties of the session operations\<close>

lemma first_failure_append:
  "first_failure e (xs @ ys) =
    (case first_failure e xs of Some err \<Rightarrow> Some err | None \<Rightarrow> first_failure e ys)"
  by (induction xs) (auto split: option.splits)

lemma connect_eeg_result:
  "fst (connect_eeg e channels obs c) =
     (case first_failure e (eeg_requests channels) of
        Some err \<Rightarrow> Inl err
      | None \<Rightarrow> Inr (obs @ map ((!) EEG_CHARACTERISTICS) channels))"
  by (induction channels arbitrary: obs c)
     (auto simp: eeg_requests_def await_def Let_def split: option.splits)

lemma connect_eeg_frame:
  "emitted (snd (connect_eeg e channels obs c)) = emitted c
   \<and> connectionStatus (snd (connect_eeg e channels obs c)) = connectionStatus c
   \<and> enableAux (snd (connect_eeg e channels obs c)) = enableAux c"
  by (induction channels arbitrary: obs c)
     (auto simp: await_def Let_def split: option.splits)

lemma connect_tail_fst:
  "fst (case r of (Inl err, c) \<Rightarrow> (Inl err, c) | (Inr x, c) \<Rightarrow> (Inr (), f x c)) =
   (case fst r of Inl err \<Rightarrow> Inl err | Inr x \<Rightarrow> Inr ())"
  by (cases r; cases "fst r") auto

lemma connect_tail_snd:
  "snd (case r of (Inl err, c) \<Rightarrow> (Inl err, c) | (Inr x, c) \<Rightarrow> (Inr (), f x c)) =
   (case fst r of Inl err \<Rightarrow> snd r | Inr x \<Rightarrow> f x (snd r))"
  by (cases r; cases "fst r") auto

lemma connect_outcome:
  "fst (connect e g c) =
     (case first_failure e (connect_requests g (enableAux c)) of
        Some err \<Rightarrow> Inl err | None \<Rightarrow> Inr ())"
  unfolding connect_def connect_requests_def
  by (cases g)
     (simp_all add: Let_def await_def first_failure_append connect_tail_fst connect_eeg_result
        split: option.split)

lemma connect_emitted:
  "emitted (snd (connect e g c)) =
     (case first_failure e (connect_requests g (enableAux c)) of
        Some err \<Rightarrow> emitted c | None \<Rightarrow> emitted c @ [True])"
  unfolding connect_def connect_requests_def
  by (cases g)
     (simp_all add: Let_def await_def first_failure_append connect_tail_snd connect_eeg_result
        connect_eeg_frame connectionStatus_next_def
        split: option.split)

lemma connect_connectionStatus:
  "connectionStatus (snd (connect e g c)) =
     (case first_failure e (connect_requests g (enableAux c)) of
        Some err \<Rightarrow> connectionStatus c | None \<Rightarrow> True)"
  unfolding connect_def connect_requests_def
  by (cases g)
     (simp_all add: Let_def await_def first_failure_append connect_tail_snd connect_eeg_result
        connect_eeg_frame connectionStatus_next_def
        split: option.split)

lemma first_failure_iff:
  "first_failure e rs = None \<longleftrightarrow> (\<forall>r \<in> set rs. outcome e r = None)"
  by (induction rs) (auto split: option.splits)


lemma channel_range: "[0..<4] = [0, 1, 2, 3]" "[0..<5] = [0, 1, 2, 3, 4]"
  by (simp_all add: upt_rec)

lemma connected_client_value:
  "connected_client =
    \<lparr> gatt = Some example_server, controlChar = Some CONTROL_CHARACTERISTIC,
      eegCharacteristics = take 4 EEG_CHARACTERISTICS, enableAux = False,
      deviceName = Some ''Muse-1234'', connectionStatus = True,
      rawControlData = Some CONTROL_CHARACTERISTIC,
      controlResponses = Some CONTROL_CHARACTERISTIC,
      telemetryData = Some TELEMETRY_CHARACTERISTIC,
      gyroscopeData = Some GYROSCOPE_CHARACTERISTIC,
      accelerometerData = Some ACCELEROMETER_CHARACTERISTIC,
      eegReadings = Some (take 4 EEG_CHARACTERISTICS),
      lastIndex = None, lastTimestamp = None,
      emitted = [True], disconnectListeners = 1, gattDisconnects = 0, wire = [] \<rparr>"
  by (simp add: connected_client_def connect_def example_env_def new_client_def Let_def
        await_def connectionStatus_next_def channel_range EEG_CHARACTERISTICS_def
        example_server_def)

text \<open>
  C4. If the environment rejects any of the requests that \<open>connect\<close> awaits, \<open>connect\<close>
  fails with the error of the first rejected request, nothing is emitted on
  \<open>connectionStatus\<close> (so no \<open>true\<close>), and its current value is what it was before the
  call.
\<close>

theorem connect_failure_emits_nothing:
  assumes "r \<in> set (connect_requests g (enableAux c))" and "outcome e r \<noteq> None"
  shows "\<exists>err. first_failure e (connect_requests g (enableAux c)) = Some err
           \<and> fst (connect e g c) = Inl err
           \<and> emitted (snd (connect e g c)) = emitted c
           \<and> connectionStatus (snd (connect e g c)) = connectionStatus c"
proof -
  from assms have "first_failure e (connect_requests g (enableAux c)) \<noteq> None"
    by (auto simp: first_failure_iff)
  then obtain err where "first_failure e (connect_requests g (enableAux c)) = Some err"
    by blast
  then show ?thesis
    by (simp add: connect_outcome connect_emitted connect_connectionStatus)
qed

theorem connect_failure_emits_nothing_witness:
  "fst (connect
         (example_env\<lparr>outcome := (\<lambda>r. if r = GetCharacteristic GYROSCOPE_CHARACTERISTIC
                                      then Some (TransportFailure ''NotFoundError'') else None)\<rparr>)
         (Some example_server) new_client) = Inl (TransportFailure ''NotFoundError'')
   \<and> emitted (snd (connect
         (example_env\<lparr>outcome := (\<lambda>r. if r = GetCharacteristic GYROSCOPE_CHARACTERISTIC
                                      then Some (TransportFailure ''NotFoundError'') else None)\<rparr>)
         (Some example_server) new_client)) = []
   \<and> connectionStatus (snd (connect
         (example_env\<lparr>outcome := (\<lambda>r. if r = GetCharacteristic GYROSCOPE_CHARACTERISTIC
                                      then Some (TransportFailure ''NotFoundError'') else None)\<rparr>)
         (Some example_server) new_client)) = False"
  using connect_failure_emits_nothing
    [of "GetCharacteristic GYROSCOPE_CHARACTERISTIC" "Some example_server" new_client
        "example_env\<lparr>outcome := (\<lambda>r. if r = GetCharacteristic GYROSCOPE_CHARACTERISTIC
                                      then Some (TransportFailure ''NotFoundError'') else None)\<rparr>"]
  by (simp add: connect_requests_def new_client_def CONTROL_CHARACTERISTIC_def
        TELEMETRY_CHARACTERISTIC_def GYROSCOPE_CHARACTERISTIC_def)

text \<open>
  C9. On a client whose control characteristic is bound, the writes of \<open>start\<close> are those
  of \<open>h\<close>, \<open>p20\<close>, \<open>s\<close>, \<open>d\<close> awaited one after the other: a command is issued only
  once the write before it has completed, and a rejected write ends the sequence. When all
  four writes complete, \<open>start\<close> succeeds having issued exactly these four, in this order,
  and changed nothing else.
\<close>

theorem start_writes_in_order:
  assumes "controlChar c \<noteq> None"
  shows "wire (snd (start e c)) =
           wire c @ write_trace e (map (encodeCommand e) [''h'', ''p20'', ''s'', ''d''])
       \<and> ((\<forall>cmd \<in> set [''h'', ''p20'', ''s'', ''d''].
              outcome e (WriteValue (encodeCommand e cmd)) = None) \<longrightarrow>
            start e c =
              (Inr (),
               c\<lparr>wire := wire c @
                  [WriteIssued (encodeCommand e ''h''), WriteCompleted (encodeCommand e ''h''),
                   WriteIssued (encodeCommand e ''p20''), WriteCompleted (encodeCommand e ''p20''),
                   WriteIssued (encodeCommand e ''s''), WriteCompleted (encodeCommand e ''s''),
                   WriteIssued (encodeCommand e ''d''), WriteCompleted (encodeCommand e ''d'')]\<rparr>))"
  using assms
  by (auto simp: start_def pause_def resume_def sendCommand_def controlChar_writeValue_def
        and_then_def Let_def split: option.splits)

theorem start_writes_in_order_witness:
  "start example_env connected_client =
     (Inr (),
      connected_client\<lparr>wire :=
        [WriteIssued [104], WriteCompleted [104],
         WriteIssued [112, 50, 48], WriteCompleted [112, 50, 48],
         WriteIssued [115], WriteCompleted [115],
         WriteIssued [100], WriteCompleted [100]]\<rparr>)"
  using start_writes_in_order [of connected_client example_env]
  by (simp add: connected_client_value example_env_def)

section \<open>Properties of the electrode streams\<close>

lemma eeg_event_sel [simp]:
  "ev_electrode (eeg_event a i now) = a" "ev_index (eeg_event a i now) = i"
  "ev_payload (eeg_event a i now) = []" "ev_now (eeg_event a i now) = now"
  by (simp_all add: eeg_event_def)

lemma uint_examples:
  "uint (0 :: 16 word) = 0" "uint (10 :: 16 word) = 10" "uint (11 :: 16 word) = 11"
  "uint (100 :: 16 word) = 100"
  by simp_all

lemma eeg_reading_unseeded:
  assumes "lastIndex c = None \<or> lastTimestamp c = None"
  shows "eeg_reading dec ev c =
    (\<lparr> index = uint (ev_index ev), electrode = ev_electrode ev,
        timestamp = of_int (ev_now ev) - READING_DELTA, samples = dec (ev_payload ev) \<rparr>,
     c\<lparr>lastIndex := Some (uint (ev_index ev)),
       lastTimestamp := Some (of_int (ev_now ev) - READING_DELTA)\<rparr>)"
  using assms by (simp add: eeg_reading_def getTimestamp_unseeded Let_def)

lemma eeg_reading_ahead:
  assumes "lastIndex c = Some li" "lastTimestamp c = Some lt"
    and "li < uint (ev_index ev)"
  shows "eeg_reading dec ev c =
    (\<lparr> index = uint (ev_index ev), electrode = ev_electrode ev,
        timestamp = lt + READING_DELTA * of_int (uint (ev_index ev) - li),
        samples = dec (ev_payload ev) \<rparr>,
     c\<lparr>lastTimestamp := Some (lt + READING_DELTA * of_int (uint (ev_index ev) - li)),
       lastIndex := Some (uint (ev_index ev))\<rparr>)"
  using assms by (simp add: eeg_reading_def getTimestamp_seeded handle_wrap_around_id Let_def)

lemma eeg_reading_fields:
  "index (fst (eeg_reading dec ev c)) = uint (ev_index ev)"
  "electrode (fst (eeg_reading dec ev c)) = ev_electrode ev"
  "timestamp (fst (eeg_reading dec ev c)) = fst (getTimestamp (ev_now ev) (uint (ev_index ev)) c)"
  "samples (fst (eeg_reading dec ev c)) = dec (ev_payload ev)"
  "snd (eeg_reading dec ev c) = snd (getTimestamp (ev_now ev) (uint (ev_index ev)) c)"
  by (simp_all add: eeg_reading_def Let_def split: prod.splits)

lemma eeg_merge_Cons:
  "eeg_merge dec c (ev # evs) =
    (fst (eeg_reading dec ev c) # fst (eeg_merge dec (snd (eeg_reading dec ev c)) evs),
     snd (eeg_merge dec (snd (eeg_reading dec ev c)) evs))"
  by (simp split: prod.splits)

lemma channel_readings_Nil [simp]: "channel_readings dec a c [] = []"
  by (simp add: channel_readings_def)

lemma channel_readings_Cons:
  "channel_readings dec a c (ev # evs) =
    (if ev_electrode ev = a then [fst (eeg_reading dec ev c)] else []) @
    channel_readings dec a (snd (eeg_reading dec ev c)) evs"
  unfolding channel_readings_def eeg_merge_Cons by (simp add: eeg_reading_fields(2))

lemma channel_readings_index:
  "map index (channel_readings dec a c evs) =
   map (\<lambda>ev. uint (ev_index ev)) (filter (\<lambda>ev. ev_electrode ev = a) evs)"
  by (induction evs arbitrary: c) (simp_all add: channel_readings_Cons eeg_reading_fields)

lemma getTimestamp_seeded_state:
  assumes "lastIndex c = Some li" "lastTimestamp c = Some lt"
  shows "lastIndex (snd (getTimestamp now e c)) = Some (max li (handle_wrap_around li e))"
    and "lastTimestamp (snd (getTimestamp now e c)) =
           Some (lt + READING_DELTA * of_int (max li (handle_wrap_around li e) - li))"
  using assms by (simp_all add: getTimestamp_seeded max_def)

lemma getTimestamp_seeded_value:
  assumes "lastIndex c = Some li" "lastTimestamp c = Some lt"
  shows "fst (getTimestamp now e c) =
         (lt - READING_DELTA * of_int li) + READING_DELTA * of_int (handle_wrap_around li e)"
  using assms by (simp add: getTimestamp_seeded algebra_simps)

lemma channel_readings_affine_seeded:
  assumes "lastIndex c = Some li" "lastTimestamp c = Some lt" "no_unwrap_on a c evs"
  shows "\<forall>r \<in> set (channel_readings dec a c evs).
           timestamp r = (lt - READING_DELTA * of_int li) + READING_DELTA * of_int (index r)"
  using assms
proof (induction evs arbitrary: c li lt)
  case Nil
  then show ?case by simp
next
  case (Cons ev evs)
  let ?e = "uint (ev_index ev)"
  let ?c' = "snd (getTimestamp (ev_now ev) ?e c)"
  define lt' where "lt' = lt + READING_DELTA * of_int (max li (handle_wrap_around li ?e) - li)"
  have c': "lastIndex ?c' = Some (max li (handle_wrap_around li ?e))"
      "lastTimestamp ?c' = Some lt'"
      "lt' - READING_DELTA * of_int (max li (handle_wrap_around li ?e))
         = lt - READING_DELTA * of_int li"
    using getTimestamp_seeded_state [OF Cons.prems(1,2)]
    by (simp_all add: lt'_def algebra_simps)
  have rest: "\<forall>r \<in> set (channel_readings dec a ?c' evs).
      timestamp r = (lt - READING_DELTA * of_int li) + READING_DELTA * of_int (index r)"
    using Cons.IH [OF c'(1,2)] Cons.prems(3) c'(3) by simp
  show ?case
  proof (cases "ev_electrode ev = a")
    case True
    with Cons.prems have "li - ?e \<le> 0x1000" by simp
    then have "handle_wrap_around li ?e = ?e" by (rule handle_wrap_around_id)
    then have "timestamp (fst (eeg_reading dec ev c)) =
        (lt - READING_DELTA * of_int li) + READING_DELTA * of_int (index (fst (eeg_reading dec ev c)))"
      using getTimestamp_seeded_value [OF Cons.prems(1,2), of "ev_now ev" ?e]
      by (simp add: eeg_reading_fields)
    with rest True show ?thesis
      by (simp add: channel_readings_Cons eeg_reading_fields(5))
  next
    case False
    with rest show ?thesis
      by (simp add: channel_readings_Cons eeg_reading_fields(5))
  qed
qed

lemma channel_readings_affine:
  assumes "no_unwrap_on a c evs"
  shows "\<exists>offset. \<forall>r \<in> set (channel_readings dec a c evs).
           timestamp r = offset + READING_DELTA * of_int (index r)"
proof (cases "lastIndex c = None \<or> lastTimestamp c = None")
  case False
  then obtain li lt where "lastIndex c = Some li" "lastTimestamp c = Some lt" by auto
  from channel_readings_affine_seeded [OF this assms] show ?thesis by blast
next
  case True
  show ?thesis
  proof (cases evs)
    case Nil
    then show ?thesis by simp
  next
    case (Cons ev rest)
    let ?e = "uint (ev_index ev)"
    let ?lt = "of_int (ev_now ev) - READING_DELTA"
    let ?c' = "c\<lparr>lastIndex := Some ?e, lastTimestamp := Some ?lt\<rparr>"
    have step: "getTimestamp (ev_now ev) ?e c = (?lt, ?c')"
      using True by (rule getTimestamp_unseeded)
    have "no_unwrap_on a ?c' rest"
      using assms by (simp add: Cons step)
    then have tail: "\<forall>r \<in> set (channel_readings dec a ?c' rest).
        timestamp r = (?lt - READING_DELTA * of_int ?e) + READING_DELTA * of_int (index r)"
      by (intro channel_readings_affine_seeded) simp_all
    have head: "timestamp (fst (eeg_reading dec ev c)) =
        (?lt - READING_DELTA * of_int ?e) + READING_DELTA * of_int (index (fst (eeg_reading dec ev c)))"
      by (simp add: eeg_reading_fields step)
    have "snd (eeg_reading dec ev c) = ?c'"
      by (simp add: eeg_reading_fields step)
    with head tail have "\<forall>r \<in> set (channel_readings dec a c evs).
        timestamp r = (?lt - READING_DELTA * of_int ?e) + READING_DELTA * of_int (index r)"
      unfolding Cons channel_readings_Cons by auto
    then show ?thesis by blast
  qed
qed

text \<open>
  C6, as the code has it. Electrode \<open>a\<close> presents strictly increasing indices, the other
  electrodes' notifications arrive in between in any way, and none of \<open>a\<close>'s indices is
  unwrapped. Then each reading of \<open>a\<close> has a strictly larger timestamp than the one before,
  and the increase is exactly \<open>READING_DELTA\<close> times the difference of the two indices.
\<close>

theorem channel_increasing_indices_increasing_timestamps:
  assumes "no_unwrap_on a c evs"
    and "sorted_wrt (<) (map (\<lambda>ev. uint (ev_index ev)) (filter (\<lambda>ev. ev_electrode ev = a) evs))"
    and "Suc k < length (channel_readings dec a c evs)"
  shows "timestamp (channel_readings dec a c evs ! k)
           < timestamp (channel_readings dec a c evs ! Suc k)
       \<and> timestamp (channel_readings dec a c evs ! Suc k)
           - timestamp (channel_readings dec a c evs ! k)
         = READING_DELTA * of_int (index (channel_readings dec a c evs ! Suc k)
                                    - index (channel_readings dec a c evs ! k))"
proof -
  let ?rs = "channel_readings dec a c evs"
  obtain offset where off:
    "\<forall>r \<in> set ?rs. timestamp r = offset + READING_DELTA * of_int (index r)"
    using channel_readings_affine [OF assms(1)] by blast
  have ts: "timestamp (?rs ! j) = offset + READING_DELTA * of_int (index (?rs ! j))"
    if "j < length ?rs" for j
    using off that by simp
  have "sorted_wrt (<) (map index ?rs)"
    using assms(2) by (simp add: channel_readings_index)
  then have "map index ?rs ! k < map index ?rs ! Suc k"
    using assms(3) by (simp add: sorted_wrt_iff_nth_less del: nth_map)
  then have "index (?rs ! k) < index (?rs ! Suc k)"
    using assms(3) by simp
  then have "READING_DELTA * of_int (index (?rs ! k)) < READING_DELTA * of_int (index (?rs ! Suc k))"
    using READING_DELTA_pos by simp
  then show ?thesis
    using assms(3) by (simp add: ts algebra_simps)
qed


theorem channel_increasing_indices_increasing_timestamps_witness:
  "timestamp (channel_readings id 0 connected_client
       [eeg_event 0 10 1000, eeg_event 1 10 1001, eeg_event 0 11 1047, eeg_event 1 11 1048] ! 0)
     < timestamp (channel_readings id 0 connected_client
       [eeg_event 0 10 1000, eeg_event 1 10 1001, eeg_event 0 11 1047, eeg_event 1 11 1048] ! Suc 0)
   \<and> timestamp (channel_readings id 0 connected_client
       [eeg_event 0 10 1000, eeg_event 1 10 1001, eeg_event 0 11 1047, eeg_event 1 11 1048] ! Suc 0)
     - timestamp (channel_readings id 0 connected_client
       [eeg_event 0 10 1000, eeg_event 1 10 1001, eeg_event 0 11 1047, eeg_event 1 11 1048] ! 0)
     = READING_DELTA * of_int
        (index (channel_readings id 0 connected_client
          [eeg_event 0 10 1000, eeg_event 1 10 1001, eeg_event 0 11 1047, eeg_event 1 11 1048] ! Suc 0)
         - index (channel_readings id 0 connected_client
          [eeg_event 0 10 1000, eeg_event 1 10 1001, eeg_event 0 11 1047, eeg_event 1 11 1048] ! 0))"
proof -
  let ?evs = "[eeg_event 0 10 1000, eeg_event 1 10 1001, eeg_event 0 11 1047, eeg_event 1 11 1048]"
  have h1: "no_unwrap_on 0 connected_client ?evs"
    by (simp add: getTimestamp_unseeded getTimestamp_seeded handle_wrap_around_id
          connected_client_value)
  have h2: "sorted_wrt (<) (map (\<lambda>ev. uint (ev_index ev))
              (filter (\<lambda>ev. ev_electrode ev = 0) ?evs))"
    by simp
  have h3: "Suc 0 < length (channel_readings id 0 connected_client ?evs)"
    by (simp add: channel_readings_Cons eeg_reading_fields)
  show ?thesis
    using channel_increasing_indices_increasing_timestamps [OF h1 h2 h3] .
qed

lemma eeg_reading_seeded:
  assumes "lastIndex c = Some li" "lastTimestamp c = Some lt"
  shows "eeg_reading dec ev c =
    (\<lparr> index = uint (ev_index ev), electrode = ev_electrode ev,
        timestamp = lt + READING_DELTA * of_int (handle_wrap_around li (uint (ev_index ev)) - li),
        samples = dec (ev_payload ev) \<rparr>,
     if handle_wrap_around li (uint (ev_index ev)) > li
     then c\<lparr>lastTimestamp :=
              Some (lt + READING_DELTA * of_int (handle_wrap_around li (uint (ev_index ev)) - li)),
            lastIndex := Some (handle_wrap_around li (uint (ev_index ev)))\<rparr>
     else c)"
  using assms by (simp add: eeg_reading_def getTimestamp_seeded Let_def)

lemma connected_client_unseeded:
  "lastIndex connected_client = None" "lastTimestamp connected_client = None"
  by (simp_all add: connected_client_value)

text \<open>
  C6, as stated, fails: electrode 0 presents the indices 10 and 11, strictly increasing and
  without a wrap of the counter, electrode 1 presents 5000 in between, and the timestamps of
  electrode 0's two readings differ by \<open>65537 * READING_DELTA\<close>, not by \<open>READING_DELTA\<close>.
\<close>

theorem other_channel_far_ahead_counterexample:
  "map electrode (fst (eeg_merge id connected_client
       [eeg_event 0 10 1000, eeg_event 1 5000 1001, eeg_event 0 11 1047])) = [0, 1, 0]
   \<and> map index (fst (eeg_merge id connected_client
       [eeg_event 0 10 1000, eeg_event 1 5000 1001, eeg_event 0 11 1047])) = [10, 5000, 11]
   \<and> map timestamp (fst (eeg_merge id connected_client
       [eeg_event 0 10 1000, eeg_event 1 5000 1001, eeg_event 0 11 1047]))
     = [1000 - READING_DELTA,
        1000 - READING_DELTA + 4990 * READING_DELTA,
        1000 - READING_DELTA + 65537 * READING_DELTA]
   \<and> (1000 - READING_DELTA + 65537 * READING_DELTA) - (1000 - READING_DELTA)
       \<noteq> READING_DELTA * of_int (11 - 10)"
proof -
  define c1 where
    "c1 = connected_client\<lparr>lastIndex := Some 10, lastTimestamp := Some (1000 - READING_DELTA)\<rparr>"
  define c2 where
    "c2 = c1\<lparr>lastTimestamp := Some (1000 - READING_DELTA + 4990 * READING_DELTA),
              lastIndex := Some 5000\<rparr>"
  have s1: "eeg_reading id (eeg_event 0 10 1000) connected_client =
      (\<lparr> index = 10, electrode = 0, timestamp = 1000 - READING_DELTA, samples = [] \<rparr>, c1)"
    using eeg_reading_unseeded [of connected_client id "eeg_event 0 10 1000"]
    by (simp add: connected_client_unseeded c1_def)
  have s2: "eeg_reading id (eeg_event 1 5000 1001) c1 =
      (\<lparr> index = 5000, electrode = 1,
          timestamp = 1000 - READING_DELTA + 4990 * READING_DELTA, samples = [] \<rparr>, c2)"
    using eeg_reading_seeded [of c1 10 "1000 - READING_DELTA" id "eeg_event 1 5000 1001"]
    by (simp add: c1_def c2_def handle_wrap_around_id)
  have unwrapped: "handle_wrap_around 5000 11 = 65547"
    by (simp add: handle_wrap_around_step handle_wrap_around_id)
  have sum: "1000 - READING_DELTA + 4990 * READING_DELTA + READING_DELTA * 60547
      = 1000 - READING_DELTA + 65537 * READING_DELTA"
    by (simp add: READING_DELTA_value)
  have s3: "fst (eeg_reading id (eeg_event 0 11 1047) c2) =
      \<lparr> index = 11, electrode = 0,
          timestamp = 1000 - READING_DELTA + 65537 * READING_DELTA, samples = [] \<rparr>"
    using eeg_reading_seeded [of c2 5000 "1000 - READING_DELTA + 4990 * READING_DELTA" id
        "eeg_event 0 11 1047"]
    by (simp add: c2_def unwrapped sum)
  have run: "fst (eeg_merge id connected_client
       [eeg_event 0 10 1000, eeg_event 1 5000 1001, eeg_event 0 11 1047]) =
      [\<lparr> index = 10, electrode = 0, timestamp = 1000 - READING_DELTA, samples = [] \<rparr>,
       \<lparr> index = 5000, electrode = 1,
          timestamp = 1000 - READING_DELTA + 4990 * READING_DELTA, samples = [] \<rparr>,
       \<lparr> index = 11, electrode = 0,
          timestamp = 1000 - READING_DELTA + 65537 * READING_DELTA, samples = [] \<rparr>]"
    by (simp only: eeg_merge_Cons s1 s2 s3 fst_conv snd_conv eeg_merge.simps(1))
  have "(1000 - READING_DELTA + 65537 * READING_DELTA) - (1000 - READING_DELTA)
       \<noteq> READING_DELTA * of_int (11 - 10)"
    by (simp add: READING_DELTA_value)
  then show ?thesis
    unfolding run by simp
qed

lemma handle_wrap_around_same:
  "la \<le> li \<Longrightarrow> li - handle_wrap_around la e \<le> 0x1000 \<Longrightarrow>
   handle_wrap_around li e = handle_wrap_around la e"
proof (induction la e rule: handle_wrap_around.induct)
  case (1 la e)
  show ?case
  proof (cases "la - e > 0x1000")
    case True
    with "1.prems" have "li - e > 0x1000" by simp
    with True "1" show ?thesis by (simp add: handle_wrap_around_step)
  next
    case False
    with "1.prems" show ?thesis by (simp add: handle_wrap_around_id)
  qed
qed

lemma both_seeded_same_readings:
  assumes "lastIndex c = Some li" "lastTimestamp c = Some lt"
    and "lastIndex ca = Some la" "lastTimestamp ca = Some lta"
    and "la \<le> li"
    and "lt - READING_DELTA * of_int li = lta - READING_DELTA * of_int la"
    and "others_within_window a li (Some la) evs"
  shows "channel_readings dec a c evs = fst (eeg_merge dec ca (filter (\<lambda>ev. ev_electrode ev = a) evs))"
  using assms
proof (induction evs arbitrary: c ca li lt la lta)
  case Nil
  then show ?case by simp
next
  case (Cons ev evs)
  let ?e = "uint (ev_index ev)"
  let ?c' = "snd (eeg_reading dec ev c)"
  let ?li' = "max li (handle_wrap_around li ?e)"
  let ?lt' = "lt + READING_DELTA * of_int (?li' - li)"
  have c': "lastIndex ?c' = Some ?li'" "lastTimestamp ?c' = Some ?lt'"
    using getTimestamp_seeded_state [OF Cons.prems(1,2)] by (simp_all add: eeg_reading_fields)
  have off': "?lt' - READING_DELTA * of_int ?li' = lta - READING_DELTA * of_int la"
    using Cons.prems(6) by (simp add: algebra_simps)
  show ?case
  proof (cases "ev_electrode ev = a")
    case False
    with Cons.prems(7) have win: "others_within_window a ?li' (Some la) evs"
      by (simp add: Let_def)
    have "channel_readings dec a ?c' evs =
          fst (eeg_merge dec ca (filter (\<lambda>ev. ev_electrode ev = a) evs))"
      using c' Cons.prems(3,4) _ off' win
    proof (rule Cons.IH)
      show "la \<le> ?li'" using Cons.prems(5) by simp
    qed
    with False show ?thesis by (simp add: channel_readings_Cons)
  next
    case True
    let ?u = "handle_wrap_around la ?e"
    let ?ca' = "snd (eeg_reading dec ev ca)"
    let ?la' = "max la ?u"
    let ?lta' = "lta + READING_DELTA * of_int (?la' - la)"
    from True Cons.prems(7) have near: "li - ?u \<le> 0x1000"
      and win: "others_within_window a ?li' (Some ?la') evs"
      by (simp_all add: Let_def)
    have same: "handle_wrap_around li ?e = ?u"
      using Cons.prems(5) near by (rule handle_wrap_around_same)
    have ca': "lastIndex ?ca' = Some ?la'" "lastTimestamp ?ca' = Some ?lta'"
      using getTimestamp_seeded_state [OF Cons.prems(3,4)] by (simp_all add: eeg_reading_fields)
    have offa: "?lt' - READING_DELTA * of_int ?li' = ?lta' - READING_DELTA * of_int ?la'"
      using Cons.prems(6) by (simp add: algebra_simps)
    have "lt + READING_DELTA * of_int (?u - li) = lta + READING_DELTA * of_int (?u - la)"
      using Cons.prems(6) by (simp add: algebra_simps)
    then have head: "fst (eeg_reading dec ev c) = fst (eeg_reading dec ev ca)"
      by (simp add: eeg_reading_seeded [OF Cons.prems(1,2)]
            eeg_reading_seeded [OF Cons.prems(3,4)] same)
    have "channel_readings dec a ?c' evs =
          fst (eeg_merge dec ?ca' (filter (\<lambda>ev. ev_electrode ev = a) evs))"
      using c' ca' _ offa win
    proof (rule Cons.IH)
      show "?la' \<le> ?li'" using Cons.prems(5) same by simp
    qed
    with True head show ?thesis
      by (simp add: channel_readings_Cons eeg_merge_Cons del: eeg_merge.simps(2))
  qed
qed


lemma seeded_and_unseeded_same_readings:
  assumes "lastIndex c = Some li" "lastTimestamp c = Some lt"
    and "lastIndex ca = None \<or> lastTimestamp ca = None"
    and "others_within_window a li None evs"
    and "case find (\<lambda>ev. ev_electrode ev = a) evs of
           None \<Rightarrow> True
         | Some ev1 \<Rightarrow> lt - READING_DELTA * of_int li = seed_offset ev1"
  shows "channel_readings dec a c evs = fst (eeg_merge dec ca (filter (\<lambda>ev. ev_electrode ev = a) evs))"
  using assms
proof (induction evs arbitrary: c li lt)
  case Nil
  then show ?case by simp
next
  case (Cons ev evs)
  let ?e = "uint (ev_index ev)"
  let ?c' = "snd (eeg_reading dec ev c)"
  let ?li' = "max li (handle_wrap_around li ?e)"
  let ?lt' = "lt + READING_DELTA * of_int (?li' - li)"
  have c': "lastIndex ?c' = Some ?li'" "lastTimestamp ?c' = Some ?lt'"
    using getTimestamp_seeded_state [OF Cons.prems(1,2)] by (simp_all add: eeg_reading_fields)
  show ?case
  proof (cases "ev_electrode ev = a")
    case False
    with Cons.prems(4) have win: "others_within_window a ?li' None evs"
      by (simp add: Let_def)
    have off: "case find (\<lambda>ev. ev_electrode ev = a) evs of
           None \<Rightarrow> True
         | Some ev1 \<Rightarrow> ?lt' - READING_DELTA * of_int ?li' = seed_offset ev1"
      using Cons.prems(5) False by (simp add: algebra_simps split: option.splits)
    have "channel_readings dec a ?c' evs =
          fst (eeg_merge dec ca (filter (\<lambda>ev. ev_electrode ev = a) evs))"
      using c' Cons.prems(3) win off by (rule Cons.IH)
    with False show ?thesis by (simp add: channel_readings_Cons)
  next
    case True
    let ?lta = "of_int (ev_now ev) - READING_DELTA"
    let ?ca' = "ca\<lparr>lastIndex := Some ?e, lastTimestamp := Some ?lta\<rparr>"
    from True Cons.prems(4) have near: "li - ?e \<le> 0x1000"
      and win: "others_within_window a ?li' (Some ?e) evs"
      by (simp_all add: Let_def)
    have nowrap: "handle_wrap_around li ?e = ?e"
      using near by (rule handle_wrap_around_id)
    from True Cons.prems(5) have off: "lt - READING_DELTA * of_int li = seed_offset ev"
      by simp
    have alone: "eeg_reading dec ev ca =
        (\<lparr> index = ?e, electrode = ev_electrode ev, timestamp = ?lta,
            samples = dec (ev_payload ev) \<rparr>, ?ca')"
      using Cons.prems(3) by (rule eeg_reading_unseeded)
    have "lt + READING_DELTA * of_int (?e - li) = ?lta"
      using off by (simp add: seed_offset_def algebra_simps)
    then have head: "fst (eeg_reading dec ev c) = fst (eeg_reading dec ev ca)"
      by (simp add: eeg_reading_seeded [OF Cons.prems(1,2)] alone nowrap)
    have offa: "?lt' - READING_DELTA * of_int ?li' = ?lta - READING_DELTA * of_int ?e"
      using off by (simp add: seed_offset_def algebra_simps)
    have "channel_readings dec a ?c' evs =
          fst (eeg_merge dec ?ca' (filter (\<lambda>ev. ev_electrode ev = a) evs))"
    proof (rule both_seeded_same_readings [OF c' _ _ _ offa])
      show "?e \<le> ?li'" by (simp add: nowrap)
      show "others_within_window a ?li' (Some ?e) evs" by (rule win)
    qed simp_all
    with True head alone show ?thesis
      by (simp add: channel_readings_Cons eeg_merge_Cons del: eeg_merge.simps(2))
  qed
qed

text \<open>
  C1, as the code has it. All electrodes share the one \<open>lastIndex\<close> and
  \<open>lastTimestamp\<close> of the client. The readings of electrode \<open>a\<close>, timestamps included,
  are the same with the notifications of the other electrodes interleaved as without them,
  provided the seeding is the same (the client is seeded already, or the first notification
  is one of \<open>a\<close>, or it sets the same constant as \<open>a\<close>'s first one would) and, whenever a
  notification of \<open>a\<close> arrives, the others have not moved the stored index more than
  \<open>0x1000\<close> above the index it unwraps to in the run of \<open>a\<close> alone.
\<close>

theorem other_channels_within_window_same_readings:
  assumes "channel_undisturbed a c evs"
  shows "filter (\<lambda>r. electrode r = a) (fst (eeg_merge dec c evs)) =
         fst (eeg_merge dec c (filter (\<lambda>ev. ev_electrode ev = a) evs))"
proof (cases "lastIndex c = None \<or> lastTimestamp c = None")
  case False
  then obtain li lt where s: "lastIndex c = Some li" "lastTimestamp c = Some lt" by auto
  with assms have "others_within_window a li (Some li) evs"
    by (simp add: channel_undisturbed_def)
  with s have "channel_readings dec a c evs =
      fst (eeg_merge dec c (filter (\<lambda>ev. ev_electrode ev = a) evs))"
    by (intro both_seeded_same_readings [where li = li and la = li]) simp_all
  then show ?thesis by (simp add: channel_readings_def)
next
  case True
  show ?thesis
  proof (cases evs)
    case Nil
    then show ?thesis by simp
  next
    case (Cons ev0 later)
    let ?e = "uint (ev_index ev0)"
    let ?lt = "of_int (ev_now ev0) - READING_DELTA"
    let ?c1 = "c\<lparr>lastIndex := Some ?e, lastTimestamp := Some ?lt\<rparr>"
    have first: "eeg_reading dec ev0 c =
        (\<lparr> index = ?e, electrode = ev_electrode ev0, timestamp = ?lt,
            samples = dec (ev_payload ev0) \<rparr>, ?c1)"
      using True by (rule eeg_reading_unseeded)
    have cond: "(if ev_electrode ev0 = a
             then others_within_window a ?e (Some ?e) later
             else (case find (\<lambda>ev. ev_electrode ev = a) later of
                     None \<Rightarrow> True
                   | Some ev1 \<Rightarrow> seed_offset ev0 = seed_offset ev1)
                  \<and> others_within_window a ?e None later)"
      using assms True by (auto simp: channel_undisturbed_def Cons split: option.splits)
    show ?thesis
    proof (cases "ev_electrode ev0 = a")
      case A: True
      with cond have win: "others_within_window a ?e (Some ?e) later" by simp
      have "channel_readings dec a ?c1 later =
          fst (eeg_merge dec ?c1 (filter (\<lambda>ev. ev_electrode ev = a) later))"
        by (rule both_seeded_same_readings [where li = ?e and la = ?e and lt = ?lt and lta = ?lt])
           (simp_all add: win)
      with A first have "channel_readings dec a c evs =
          fst (eeg_merge dec c (filter (\<lambda>ev. ev_electrode ev = a) evs))"
        by (simp add: Cons channel_readings_Cons eeg_merge_Cons del: eeg_merge.simps(2))
      then show ?thesis by (simp add: channel_readings_def)
    next
      case B: False
      with cond have win: "others_within_window a ?e None later"
        and off: "case find (\<lambda>ev. ev_electrode ev = a) later of
                     None \<Rightarrow> True
                   | Some ev1 \<Rightarrow> seed_offset ev0 = seed_offset ev1"
        by simp_all
      have "channel_readings dec a ?c1 later =
          fst (eeg_merge dec c (filter (\<lambda>ev. ev_electrode ev = a) later))"
      proof (rule seeded_and_unseeded_same_readings [where li = ?e and lt = ?lt])
        show "case find (\<lambda>ev. ev_electrode ev = a) later of
           None \<Rightarrow> True
         | Some ev1 \<Rightarrow> ?lt - READING_DELTA * of_int ?e = seed_offset ev1"
          using off by (simp add: seed_offset_def split: option.splits)
      qed (simp_all add: True win)
      with B first have "channel_readings dec a c evs =
          fst (eeg_merge dec c (filter (\<lambda>ev. ev_electrode ev = a) evs))"
        by (simp add: Cons channel_readings_Cons)
      then show ?thesis by (simp add: channel_readings_def)
    qed
  qed
qed

theorem other_channels_within_window_same_readings_witness:
  "filter (\<lambda>r. electrode r = 0) (fst (eeg_merge id connected_client
       [eeg_event 0 10 1000, eeg_event 1 12 1001, eeg_event 0 11 1047, eeg_event 1 13 1050]))
   = fst (eeg_merge id connected_client [eeg_event 0 10 1000, eeg_event 0 11 1047])"
proof -
  have h: "channel_undisturbed 0 connected_client
      [eeg_event 0 10 1000, eeg_event 1 12 1001, eeg_event 0 11 1047, eeg_event 1 13 1050]"
    by (simp add: channel_undisturbed_def connected_client_unseeded handle_wrap_around_id)
  show ?thesis
    using other_channels_within_window_same_readings [OF h, of id] by simp
qed


text \<open>
  C1, as stated, fails: a notification of electrode 1 (index 0) delivered before the
  notification of electrode 0 (index 10) seeds the shared state, and electrode 0's reading
  gets another timestamp than it gets alone.
\<close>

theorem other_channel_changes_timestamps_counterexample:
  "map timestamp (fst (eeg_merge id connected_client [eeg_event 0 10 1000]))
     = [1000 - READING_DELTA]
   \<and> map electrode (fst (eeg_merge id connected_client
         [eeg_event 1 0 1000, eeg_event 0 10 1000])) = [1, 0]
   \<and> map timestamp (fst (eeg_merge id connected_client
         [eeg_event 1 0 1000, eeg_event 0 10 1000]))
     = [1000 - READING_DELTA, 1000 - READING_DELTA + 10 * READING_DELTA]
   \<and> 1000 - READING_DELTA \<noteq> 1000 - READING_DELTA + 10 * READING_DELTA"
proof -
  have "1000 - READING_DELTA \<noteq> 1000 - READING_DELTA + 10 * READING_DELTA"
    by (simp add: READING_DELTA_value)
  then show ?thesis
    by (simp add: eeg_reading_unseeded eeg_reading_ahead [where li = 0] connected_client_value)
qed

section \<open>Properties of \<open>disconnect\<close> and of the transport's disconnect event\<close>

lemma on_gattserverdisconnected_funpow:
  "(on_gattserverdisconnected ^^ n) c =
     (if n = 0 then c
      else c\<lparr>gatt := None, connectionStatus := False, emitted := emitted c @ replicate n False\<rparr>)"
proof (induction n)
  case 0
  then show ?case by simp
next
  case (Suc n)
  then show ?case
    by (simp add: on_gattserverdisconnected_def connectionStatus_next_def replicate_append_same)
qed

lemma disconnect_resets:
  "gatt c \<noteq> None \<Longrightarrow> lastIndex (disconnect c) = None \<and> lastTimestamp (disconnect c) = None"
  by (simp add: disconnect_def Let_def connectionStatus_next_def)

lemma gattserverdisconnected_keeps_sequence_state:
  "lastIndex (gattserverdisconnected c) = lastIndex c
   \<and> lastTimestamp (gattserverdisconnected c) = lastTimestamp c"
  by (simp add: gattserverdisconnected_def on_gattserverdisconnected_funpow)

lemma connect_eeg_sequence_state:
  "lastIndex (snd (connect_eeg e channels obs c)) = lastIndex c
   \<and> lastTimestamp (snd (connect_eeg e channels obs c)) = lastTimestamp c"
  by (induction channels arbitrary: obs c)
     (auto simp: await_def Let_def split: option.splits)

lemma connect_keeps_sequence_state:
  "lastIndex (snd (connect e g c)) = lastIndex c
   \<and> lastTimestamp (snd (connect e g c)) = lastTimestamp c"
  unfolding connect_def
  by (cases g)
     (simp_all add: Let_def await_def connect_tail_snd connect_eeg_sequence_state
        connectionStatus_next_def split: option.split sum.split)


text \<open>
  C3, as the code has it. \<open>disconnect()\<close> does nothing when \<open>gatt\<close> is \<open>null\<close>.
  Otherwise it emits \<open>false\<close> once and leaves \<open>gatt\<close> set, so two calls in succession
  emit \<open>false\<close> twice. When the transport's disconnect event is delivered between the two
  calls of a session connected once, its subscriber emits the second \<open>false\<close> and clears
  \<open>gatt\<close>, and the second call does nothing.
\<close>

theorem disconnect_twice_emits_twice:
  assumes "gatt c \<noteq> None"
  shows "emitted (disconnect c) = emitted c @ [False]
       \<and> gatt (disconnect c) = gatt c
       \<and> emitted (disconnect (disconnect c)) = emitted c @ [False, False]
       \<and> (disconnectListeners c = 1 \<longrightarrow>
            emitted (gattserverdisconnected (disconnect c)) = emitted c @ [False, False]
          \<and> disconnect (gattserverdisconnected (disconnect c)) =
              gattserverdisconnected (disconnect c))
       \<and> disconnect (c\<lparr>gatt := None\<rparr>) = c\<lparr>gatt := None\<rparr>"
  using assms
  by (simp add: disconnect_def Let_def connectionStatus_next_def gattserverdisconnected_def
        on_gattserverdisconnected_def)

theorem disconnect_twice_emits_twice_witness:
  "emitted (disconnect connected_client) = [True, False]
   \<and> emitted (disconnect (disconnect connected_client)) = [True, False, False]
   \<and> emitted (gattserverdisconnected (disconnect connected_client)) = [True, False, False]
   \<and> disconnect (gattserverdisconnected (disconnect connected_client)) =
        gattserverdisconnected (disconnect connected_client)"
  using disconnect_twice_emits_twice [of connected_client]
  by (simp add: connected_client_value)

text \<open>
  C3, as stated, fails on the connected client: two calls of \<open>disconnect()\<close> emit
  \<open>false\<close> twice, with or without the transport's event in between, and without it the
  second call is not a no-op although \<open>connectionStatus\<close> is already \<open>false\<close>.
\<close>

theorem disconnect_twice_counterexample:
  "connectionStatus connected_client = True
   \<and> emitted connected_client = [True]
   \<and> emitted (disconnect (disconnect connected_client)) = [True, False, False]
   \<and> emitted (disconnect (gattserverdisconnected (disconnect connected_client)))
       = [True, False, False]
   \<and> connectionStatus (disconnect connected_client) = False
   \<and> disconnect (disconnect connected_client) \<noteq> disconnect connected_client"
  apply (simp add: connected_client_value disconnect_def Let_def connectionStatus_next_def
        gattserverdisconnected_def on_gattserverdisconnected_def)
  done

text \<open>
  C2 at a transport-level disconnect. After the event the client is disconnected
  (\<open>connectionStatus\<close> is \<open>false\<close>, \<open>gatt\<close> is \<open>null\<close>), but \<open>lastIndex\<close> and
  \<open>lastTimestamp\<close> still hold the values of the session that ended; \<open>disconnect()\<close> is
  then a no-op, \<open>connect\<close> keeps them, and the first reading of the new session (index 0
  at clock 60000) is stamped 100 groups before the old session's clock.
\<close>

theorem transport_disconnect_keeps_sequencing_state:
  "connectionStatus dropped_client = False
   \<and> gatt dropped_client = None
   \<and> lastIndex dropped_client = Some 100
   \<and> lastTimestamp dropped_client = Some (1000 - READING_DELTA)
   \<and> disconnect dropped_client = dropped_client
   \<and> lastIndex (snd (connect example_env (Some example_server) dropped_client)) = Some 100
   \<and> lastTimestamp (snd (connect example_env (Some example_server) dropped_client))
       = Some (1000 - READING_DELTA)
   \<and> timestamp (fst (eeg_reading id (eeg_event 0 0 60000)
         (snd (connect example_env (Some example_server) dropped_client))))
       = 1000 - READING_DELTA - 100 * READING_DELTA"
proof -
  have fields: "connectionStatus dropped_client = False" "gatt dropped_client = None"
    "lastIndex dropped_client = Some 100"
    "lastTimestamp dropped_client = Some (1000 - READING_DELTA)"
    by (simp_all add: dropped_client_def eeg_reading_unseeded connected_client_value
          gattserverdisconnected_def on_gattserverdisconnected_def connectionStatus_next_def)
  have noop: "disconnect dropped_client = dropped_client"
    by (simp add: disconnect_def fields)
  let ?c = "snd (connect example_env (Some example_server) dropped_client)"
  have again: "lastIndex ?c = Some 100" "lastTimestamp ?c = Some (1000 - READING_DELTA)"
    by (simp_all add: connect_keeps_sequence_state fields)
  have "getTimestamp 60000 0 ?c = (1000 - READING_DELTA - 100 * READING_DELTA, ?c)"
    by (simp add: getTimestamp_seeded [OF again] handle_wrap_around_id)
  then have "timestamp (fst (eeg_reading id (eeg_event 0 0 60000) ?c))
      = 1000 - READING_DELTA - 100 * READING_DELTA"
    by (simp add: eeg_reading_def Let_def)
  with fields noop again show ?thesis by simp
qed

end
